theory Spec2Isabelle
  imports Main
begin

section \<open>Python strings\<close>

text \<open>
  A Python string is a sequence of code points; a \<open>char\<close> is the code point of one
  character below 256, as in \<open>json_escape_char\<close> further down. Code points from 256 on
  are outside the model. \<open>str.strip()\<close> without an argument removes the leading and
  trailing characters for which \<open>str.isspace\<close> holds; below 256 these are TAB, LF, VT,
  FF, CR, the four separators 0x1C..0x1F, the space, NEL (0x85) and the no-break space
  (0xA0).
\<close>

definition whitespace_chars :: "char list" where
  "whitespace_chars =
     [CHR 0x09, CHR 0x0A, CHR 0x0B, CHR 0x0C, CHR 0x0D,
      CHR 0x1C, CHR 0x1D, CHR 0x1E, CHR 0x1F, CHR 0x20,
      CHR 0x85, CHR 0xA0]"

definition isspace :: "char \<Rightarrow> bool" where
  "isspace c = (c \<in> set whitespace_chars)"

definition lstrip :: "string \<Rightarrow> string" where
  "lstrip s = dropWhile isspace s"

definition rstrip :: "string \<Rightarrow> string" where
  "rstrip s = rev (dropWhile isspace (rev s))"

definition strip :: "string \<Rightarrow> string" where
  "strip s = rstrip (lstrip s)"

text \<open>
  \<open>upper\<close> and \<open>lower\<close> fold the ASCII letters. \<open>str.upper()\<close> and \<open>str.lower()\<close> also
  change characters from 0x80 on, but never into a letter of \<open>ACCEPT\<close> or of \<open>timeout\<close>,
  the two words their results are compared with.
\<close>

definition ascii_lowercase :: string where
  "ascii_lowercase = ''abcdefghijklmnopqrstuvwxyz''"

definition ascii_uppercase :: string where
  "ascii_uppercase = ''ABCDEFGHIJKLMNOPQRSTUVWXYZ''"

definition upper_char :: "char \<Rightarrow> char" where
  "upper_char c =
     (case map_of (zip ascii_lowercase ascii_uppercase) c of Some u \<Rightarrow> u | None \<Rightarrow> c)"

definition lower_char :: "char \<Rightarrow> char" where
  "lower_char c =
     (case map_of (zip ascii_uppercase ascii_lowercase) c of Some l \<Rightarrow> l | None \<Rightarrow> c)"

definition upper :: "string \<Rightarrow> string" where
  "upper s = map upper_char s"

definition lower :: "string \<Rightarrow> string" where
  "lower s = map lower_char s"

text \<open>\<open>startswith s p\<close> is Python's \<open>s.startswith(p)\<close>; \<open>contains p s\<close> is \<open>p in s\<close>.\<close>

definition startswith :: "string \<Rightarrow> string \<Rightarrow> bool" where
  "startswith s p = (take (length p) s = p)"

fun contains :: "string \<Rightarrow> string \<Rightarrow> bool" where
  "contains p [] = (p = [])"
| "contains p (c # cs) = (startswith (c # cs) p \<or> contains p cs)"

section \<open>Verdicts and execution results\<close>

text \<open>
  The verdict strings used by the API and the judge: \<open>"PENDING"\<close> is written by the API
  when a submission is created, the others by \<open>executor.py\<close>.
\<close>

datatype verdict = PENDING | JUDGING | AC | WA | TLE | MLE | RE | CE | SUCCESS

text \<open>
  The dictionary returned by \<open>execute_code\<close>. Every key except \<open>"verdict"\<close> is
  absent on some return path, so each is an option.
\<close>

record exec_result =
  verdict :: verdict
  output_str :: "string option"
  error :: "string option"
  execution_time :: "int option"
  memory_used :: "int option"

section \<open>Language profiles\<close>

record lang_config =
  image_cfg :: string
  compile_cmd :: "string list option"
  run_cmd :: "string list"
  file_ext :: string
  timeout_cfg :: int

definition language_configs :: "string \<Rightarrow> lang_config option" where
  "language_configs language =
     (if language = ''c'' then
        Some \<lparr>image_cfg = ''gcc:11-alpine'',
              compile_cmd = Some [''gcc'', ''-o'', ''/tmp/solution'', ''/tmp/solution.c'',
                                  ''-std=c11'', ''-O2''],
              run_cmd = [''/tmp/solution''],
              file_ext = ''.c'',
              timeout_cfg = 10\<rparr>
      else if language = ''python'' then
        Some \<lparr>image_cfg = ''python:3.11-alpine'',
              compile_cmd = None,
              run_cmd = [''python3'', ''/tmp/solution.py''],
              file_ext = ''.py'',
              timeout_cfg = 10\<rparr>
      else if language = ''javascript'' then
        Some \<lparr>image_cfg = ''node:20-alpine'',
              compile_cmd = None,
              run_cmd = [''node'', ''/tmp/solution.js''],
              file_ext = ''.js'',
              timeout_cfg = 10\<rparr>
      else None)"

section \<open>The sandbox as seen by the executor\<close>

text \<open>
  \<open>execute_code\<close> talks to the file system, the clock and the Docker daemon. What they
  answer during one call is a parameter of the model, a \<open>sandbox_trace\<close>:
  \<^item> \<open>tmpdir_exn\<close>: the exception raised by \<open>tempfile.TemporaryDirectory()\<close>, if any;
  \<^item> \<open>write_exn\<close>: the exception raised while the source and input files are written;
  \<^item> \<open>compile_phase\<close>: what the compile container does (read only when the profile has a
    compile command);
  \<^item> \<open>run_phase\<close>: what the run container does;
  \<^item> \<open>cleanup_exn\<close>: the exception raised when the \<open>with\<close> block is left and the
    temporary directory is removed, if any; it replaces whatever the block returned or
    raised.
  An exception is \<open>docker.errors.APIError\<close> or any other subclass of \<open>Exception\<close>; the
  string is \<open>str(e)\<close>.
\<close>

datatype py_exception = APIError string | OtherException string

fun str_of :: "py_exception \<Rightarrow> string" where
  "str_of (APIError m) = m"
| "str_of (OtherException m) = m"

datatype compile_outcome =
    CompileRaised py_exception
      \<comment> \<open>\<open>containers.run\<close>, \<open>wait\<close>, \<open>logs\<close>, \<open>decode\<close> or \<open>remove\<close> raises\<close>
  | CompileExited int string
      \<comment> \<open>\<open>compile_result["StatusCode"]\<close> and the decoded logs\<close>

datatype run_outcome =
    RunLaunchRaised py_exception
      \<comment> \<open>\<open>containers.run\<close> raises, before the inner \<open>try\<close>\<close>
  | RunRaised py_exception "py_exception option"
      \<comment> \<open>an exception raised inside the inner \<open>try\<close> (by \<open>wait\<close>, \<open>logs\<close>,
          \<open>stats\<close> or \<open>remove\<close>), and the exception raised by \<open>kill()\<close> or
          \<open>remove()\<close> in the timeout handler, if any\<close>
  | RunExited int int string string "int option"
      \<comment> \<open>\<open>result["StatusCode"]\<close>, the elapsed milliseconds
          \<open>int((time.time() - start_time) * 1000)\<close>, stdout, stderr, and
          \<open>stats['memory_stats']['usage']\<close> in bytes when the key is present\<close>

record sandbox_trace =
  tmpdir_exn :: "py_exception option"
  write_exn :: "py_exception option"
  compile_phase :: compile_outcome
  run_phase :: run_outcome
  cleanup_exn :: "py_exception option"

section \<open>execute\_code\<close>

text \<open>\<open>d.get(key, 0)\<close> for a key that may be absent.\<close>

fun get_or_0 :: "int option \<Rightarrow> int" where
  "get_or_0 None = 0"
| "get_or_0 (Some v) = v"

text \<open>Lines 108--150: the execution step. \<open>Inl e\<close> is the exception \<open>e\<close> leaving the step.\<close>

fun execution_step :: "int \<Rightarrow> int \<Rightarrow> run_outcome \<Rightarrow> py_exception + exec_result" where
  "execution_step time_limit memory_limit (RunLaunchRaised e) = Inl e"
| "execution_step time_limit memory_limit (RunRaised (APIError m) handler_exn) =
     (if contains ''timeout'' (lower m) then
        (case handler_exn of
           Some e' \<Rightarrow> Inl e'
         | None \<Rightarrow>
             Inr \<lparr>verdict = TLE, output_str = None, error = None,
                  execution_time = Some time_limit, memory_used = Some 0\<rparr>)
      else Inl (APIError m))"
| "execution_step time_limit memory_limit (RunRaised (OtherException m) handler_exn) =
     Inl (OtherException m)"
| "execution_step time_limit memory_limit (RunExited status_code elapsed out err usage) =
     (let execution_time = elapsed;
          memory_used = get_or_0 usage div 1024
      in if status_code \<noteq> 0 then
           (if execution_time \<ge> time_limit then
              Inr \<lparr>verdict = TLE, output_str = None, error = None,
                   execution_time = Some execution_time, memory_used = Some memory_used\<rparr>
            else
              Inr \<lparr>verdict = RE, output_str = None, error = Some err,
                   execution_time = Some execution_time, memory_used = Some memory_used\<rparr>)
         else if memory_used > memory_limit * 1024 then
           Inr \<lparr>verdict = MLE, output_str = None, error = None,
                execution_time = Some execution_time, memory_used = Some memory_used\<rparr>
         else
           Inr \<lparr>verdict = SUCCESS, output_str = Some (strip out), error = None,
                execution_time = Some execution_time, memory_used = Some memory_used\<rparr>)"

text \<open>
  Lines 89--106: the compilation step, run only when the profile has a compile command.
  \<open>Inr None\<close> means that the step is over and the execution step follows.
\<close>

fun compilation_step :: "lang_config \<Rightarrow> compile_outcome \<Rightarrow> py_exception + exec_result option" where
  "compilation_step config c =
     (case compile_cmd config of
        None \<Rightarrow> Inr None
      | Some cmd \<Rightarrow>
          (if cmd = [] then Inr None
           else
             (case c of
                CompileRaised e \<Rightarrow> Inl e
              | CompileExited status_code compile_logs \<Rightarrow>
                  (if status_code \<noteq> 0 then
                     Inr (Some \<lparr>verdict = CE, output_str = None, error = Some compile_logs,
                               execution_time = Some 0, memory_used = Some 0\<rparr>)
                   else Inr None))))"

text \<open>Lines 50--150: the body of the \<open>with\<close> block.\<close>

definition with_block :: "lang_config \<Rightarrow> int \<Rightarrow> int \<Rightarrow> sandbox_trace \<Rightarrow> py_exception + exec_result" where
  "with_block config time_limit memory_limit t =
     (case write_exn t of
        Some e \<Rightarrow> Inl e
      | None \<Rightarrow>
          (case compilation_step config (compile_phase t) of
             Inl e \<Rightarrow> Inl e
           | Inr (Some r) \<Rightarrow> Inr r
           | Inr None \<Rightarrow> execution_step time_limit memory_limit (run_phase t)))"

text \<open>
  Lines 47--150: the \<open>try\<close> block. The temporary directory is created, the body runs, and
  the directory is removed when the \<open>with\<close> block is left; an exception of the removal
  replaces the result or the exception of the body.
\<close>

definition try_block :: "lang_config \<Rightarrow> int \<Rightarrow> int \<Rightarrow> sandbox_trace \<Rightarrow> py_exception + exec_result" where
  "try_block config time_limit memory_limit t =
     (case tmpdir_exn t of
        Some e \<Rightarrow> Inl e
      | None \<Rightarrow>
          (case cleanup_exn t of
             Some e \<Rightarrow> Inl e
           | None \<Rightarrow> with_block config time_limit memory_limit t))"

text \<open>
  Lines 41--153. The source code and the test input are written to files of the sandbox
  and have no other use; what the sandbox does with them is the trace.
\<close>

definition execute_code :: "string \<Rightarrow> string \<Rightarrow> string \<Rightarrow> int \<Rightarrow> int \<Rightarrow> sandbox_trace \<Rightarrow> exec_result" where
  "execute_code language code test_input time_limit memory_limit t =
     (case language_configs language of
        None \<Rightarrow>
          \<lparr>verdict = CE, output_str = None, error = Some ''Unsupported language'',
           execution_time = None, memory_used = None\<rparr>
      | Some config \<Rightarrow>
          (case try_block config time_limit memory_limit t of
             Inr r \<Rightarrow> r
           | Inl e \<Rightarrow>
               \<lparr>verdict = RE, output_str = None, error = Some (str_of e),
                execution_time = Some 0, memory_used = Some 0\<rparr>))"

section \<open>The checker runner\<close>

text \<open>
  \<open>json.dumps\<close> of a dictionary of three strings, with the default separators and
  \<open>ensure_ascii\<close>: the quote and the backslash are escaped with a backslash, the
  control characters BS, FF, LF, CR and TAB by their letter, and every other character
  outside the range from the space to the tilde as a \<open>u00XX\<close> escape with lower-case
  digits.
\<close>

definition hex_digit :: "nat \<Rightarrow> char" where
  "hex_digit n = ''0123456789abcdef'' ! (n mod 16)"

definition json_escape_char :: "char \<Rightarrow> string" where
  "json_escape_char c =
     (if c = CHR 0x22 then [CHR 0x5C, CHR 0x22]
      else if c = CHR 0x5C then [CHR 0x5C, CHR 0x5C]
      else if c = CHR 0x08 then [CHR 0x5C, CHR ''b'']
      else if c = CHR 0x0C then [CHR 0x5C, CHR ''f'']
      else if c = CHR 0x0A then [CHR 0x5C, CHR ''n'']
      else if c = CHR 0x0D then [CHR 0x5C, CHR ''r'']
      else if c = CHR 0x09 then [CHR 0x5C, CHR ''t'']
      else if (of_char c :: nat) < 0x20 \<or> (of_char c :: nat) > 0x7E then
        [CHR 0x5C, CHR ''u'', CHR ''0'', CHR ''0'',
         hex_digit ((of_char c :: nat) div 16), hex_digit (of_char c :: nat)]
      else [c])"

definition json_string :: "string \<Rightarrow> string" where
  "json_string s = [CHR 0x22] @ concat (map json_escape_char s) @ [CHR 0x22]"

definition json_dumps :: "(string \<times> string) list \<Rightarrow> string" where
  "json_dumps kvs =
     ''{'' @ concat (map (\<lambda>(i, (k, v)).
                (if i = 0 then [] else '', '') @ json_string k @ '': '' @ json_string v)
              (enumerate 0 kvs)) @ ''}''"

datatype py_error = KeyError string

text \<open>Lines 155--173. \<open>result["output"]\<close> raises \<open>KeyError\<close> when the key is absent.\<close>

definition run_dynamic_checker ::
    "string \<Rightarrow> string \<Rightarrow> string \<Rightarrow> string \<Rightarrow> string \<Rightarrow> sandbox_trace \<Rightarrow> py_error + bool \<times> string" where
  "run_dynamic_checker checker_code checker_language user_output expected_output test_input t =
     (let checker_input = json_dumps [(''input'', test_input),
                                      (''expected'', expected_output),
                                      (''actual'', user_output)];
          result = execute_code checker_language checker_code checker_input 5000 64 t
      in if verdict result \<noteq> SUCCESS then Inr (False, ''Checker execution failed'')
         else
           (case output_str result of
              None \<Rightarrow> Inl (KeyError ''output'')
            | Some out \<Rightarrow> Inr (upper (strip out) = ''ACCEPT'', out)))"

section \<open>The judge pipeline\<close>

record test_case =
  tc_input :: string
  tc_expected_output :: string
  tc_hidden :: bool

record problem =
  problem_test_cases :: "test_case list"
  problem_time_limit :: int
  problem_memory_limit :: int
  problem_checker_code :: "string option"
  problem_checker_language :: "string option"

record job =
  job_submission_id :: nat
  job_problem_id :: nat
  job_language :: string
  job_code :: string

text \<open>
  A per-test record of \<open>judge_output\<close>. The record of a failed execution has the key
  \<open>"error"\<close>, the record of a checked output has the key \<open>"checker_message"\<close>.
\<close>

record test_result =
  tr_test_case :: nat
  tr_verdict :: verdict
  tr_execution_time :: int
  tr_memory_used :: int
  tr_error :: "string option"
  tr_checker_message :: "string option"

text \<open>The columns of a row of \<open>submissions\<close> that the judge writes.\<close>

record submission =
  sub_verdict :: verdict
  sub_execution_time :: "int option"
  sub_memory_used :: "int option"
  sub_test_cases_passed :: "nat option"
  sub_total_test_cases :: "nat option"
  sub_judge_output :: "test_result list option"
  sub_judged_at :: "string option"

record store =
  submissions :: "nat \<rightharpoonup> submission"
  problems :: "nat \<rightharpoonup> problem"

text \<open>
  \<open>judge_submission\<close> builds its store client from \<open>SUPABASE_URL\<close> and
  \<open>SUPABASE_KEY\<close> and stamps the row with \<open>datetime.now()\<close>; none of the three names
  is defined or imported in \<open>executor.py\<close>. The store they denote and the clock are
  parameters of the model, as are the sandbox traces: \<open>user_trace w i\<close> is what the
  sandbox does when the submission runs on test case \<open>i\<close> (counted from 0),
  \<open>checker_trace w i\<close> what it does when the checker runs on that test case.
\<close>

record world =
  user_trace :: "nat \<Rightarrow> sandbox_trace"
  checker_trace :: "nat \<Rightarrow> sandbox_trace"
  now_isoformat :: string

text \<open>\<open>.update(fields).eq("id", submission_id).execute()\<close>: rows that do not match are left alone.\<close>

definition update_submission :: "nat \<Rightarrow> (submission \<Rightarrow> submission) \<Rightarrow> store \<Rightarrow> store" where
  "update_submission submission_id f s =
     (case submissions s submission_id of
        None \<Rightarrow> s
      | Some row \<Rightarrow> s\<lparr>submissions := (submissions s)(submission_id \<mapsto> f row)\<rparr>)"

text \<open>Python truthiness of an optional string: \<open>None\<close> and \<open>""\<close> are false.\<close>

fun truthy :: "string option \<Rightarrow> bool" where
  "truthy None = False"
| "truthy (Some s) = (s \<noteq> [])"

text \<open>\<open>result.get("error", "")\<close>.\<close>

fun get_or_empty :: "string option \<Rightarrow> string" where
  "get_or_empty None = []"
| "get_or_empty (Some v) = v"

text \<open>
  Lines 231--239: how correctness is decided. The checker is used when both
  \<open>checker_code\<close> and \<open>checker_language\<close> are true in Python's sense.
\<close>

fun check_output ::
    "string option \<Rightarrow> string option \<Rightarrow> string \<Rightarrow> string \<Rightarrow> string \<Rightarrow> sandbox_trace \<Rightarrow> py_error + bool \<times> string" where
  "check_output (Some checker_code) (Some checker_language) user_output expected_output test_input t =
     (if checker_code \<noteq> [] \<and> checker_language \<noteq> [] then
        run_dynamic_checker checker_code checker_language user_output expected_output test_input t
      else Inr (strip user_output = strip expected_output, []))"
| "check_output checker_code checker_language user_output expected_output test_input t =
     Inr (strip user_output = strip expected_output, [])"

record judge_state =
  results :: "test_result list"
  passed_count :: nat
  max_time :: int
  max_memory :: int

text \<open>
  Lines 208--256: the body of the loop for test case \<open>tc\<close> at index \<open>i\<close>. The boolean is
  true when the body ends with \<open>break\<close>.
\<close>

definition judge_test_case ::
    "job \<Rightarrow> problem \<Rightarrow> world \<Rightarrow> nat \<Rightarrow> test_case \<Rightarrow> judge_state \<Rightarrow> py_error + judge_state \<times> bool" where
  "judge_test_case j p w i tc st =
     (let test_input = tc_input tc;
          expected_output = tc_expected_output tc;
          result = execute_code (job_language j) (job_code j) test_input
                     (problem_time_limit p) (problem_memory_limit p) (user_trace w i);
          st1 = st\<lparr>max_time := max (max_time st) (get_or_0 (execution_time result)),
                   max_memory := max (max_memory st) (get_or_0 (memory_used result))\<rparr>
      in if verdict result \<noteq> SUCCESS then
           Inr (st1\<lparr>results := results st1 @
                      [\<lparr>tr_test_case = i + 1,
                        tr_verdict = verdict result,
                        tr_execution_time = get_or_0 (execution_time result),
                        tr_memory_used = get_or_0 (memory_used result),
                        tr_error = Some (get_or_empty (error result)),
                        tr_checker_message = None\<rparr>]\<rparr>, True)
         else
           (case output_str result of
              None \<Rightarrow> Inl (KeyError ''output'')
            | Some user_output \<Rightarrow>
                (case check_output (problem_checker_code p) (problem_checker_language p)
                        user_output expected_output test_input (checker_trace w i) of
                   Inl e \<Rightarrow> Inl e
                 | Inr (is_correct, checker_msg) \<Rightarrow>
                     (let st2 = (if is_correct then st1\<lparr>passed_count := passed_count st1 + 1\<rparr>
                                 else st1);
                          v = (if is_correct then AC else WA)
                      in case execution_time result of
                           None \<Rightarrow> Inl (KeyError ''execution_time'')
                         | Some et \<Rightarrow>
                             (case memory_used result of
                                None \<Rightarrow> Inl (KeyError ''memory_used'')
                              | Some mu \<Rightarrow>
                                  Inr (st2\<lparr>results := results st2 @
                                             [\<lparr>tr_test_case = i + 1,
                                               tr_verdict = v,
                                               tr_execution_time = et,
                                               tr_memory_used = mu,
                                               tr_error = None,
                                               tr_checker_message = Some checker_msg\<rparr>]\<rparr>,
                                       \<not> is_correct))))))"

text \<open>Lines 207--256: the loop over \<open>enumerate(test_cases)\<close>, from index \<open>i\<close> on.\<close>

fun judge_loop ::
    "job \<Rightarrow> problem \<Rightarrow> world \<Rightarrow> nat \<Rightarrow> test_case list \<Rightarrow> judge_state \<Rightarrow> py_error + judge_state" where
  "judge_loop j p w i [] st = Inr st"
| "judge_loop j p w i (tc # tcs) st =
     (case judge_test_case j p w i tc st of
        Inl e \<Rightarrow> Inl e
      | Inr (st', stop) \<Rightarrow> if stop then Inr st' else judge_loop j p w (Suc i) tcs st')"

text \<open>Lines 258--271: the final verdict.\<close>

definition final_verdict :: "nat \<Rightarrow> nat \<Rightarrow> test_result list \<Rightarrow> verdict" where
  "final_verdict passed n rs =
     (if passed = n then AC
      else
        (let verdicts = map tr_verdict rs
         in if TLE \<in> set verdicts then TLE
            else if MLE \<in> set verdicts then MLE
            else if RE \<in> set verdicts then RE
            else WA))"

text \<open>
  Lines 175--284. \<open>Inl e\<close> is the exception \<open>e\<close> leaving the function; the row is then
  left as the first update wrote it.
\<close>

definition judge_submission :: "job \<Rightarrow> world \<Rightarrow> store \<Rightarrow> py_error + store" where
  "judge_submission j w s =
     (let submission_id = job_submission_id j;
          s1 = update_submission submission_id (\<lambda>row. row\<lparr>sub_verdict := JUDGING\<rparr>) s
      in case problems s1 (job_problem_id j) of
           None \<Rightarrow> Inr s1
         | Some p \<Rightarrow>
             (let test_cases = problem_test_cases p
              in case judge_loop j p w 0 test_cases
                        \<lparr>results = [], passed_count = 0, max_time = 0, max_memory = 0\<rparr> of
                   Inl e \<Rightarrow> Inl e
                 | Inr st \<Rightarrow>
                     Inr (update_submission submission_id
                            (\<lambda>row. row\<lparr>sub_verdict :=
                                          final_verdict (passed_count st) (length test_cases)
                                            (results st),
                                        sub_execution_time := Some (max_time st),
                                        sub_memory_used := Some (max_memory st),
                                        sub_test_cases_passed := Some (passed_count st),
                                        sub_total_test_cases := Some (length test_cases),
                                        sub_judge_output := Some (results st),
                                        sub_judged_at := Some (now_isoformat w)\<rparr>)
                            s1)))"

text \<open>
  The row of the job's submission after \<open>judge_submission\<close> has run: \<open>None\<close> when the
  function raised or the store has no such row.
\<close>

definition judged_row :: "job \<Rightarrow> world \<Rightarrow> store \<Rightarrow> submission option" where
  "judged_row j w s =
     (case judge_submission j w s of
        Inl e \<Rightarrow> None
      | Inr s' \<Rightarrow> submissions s' (job_submission_id j))"

section \<open>The specification's vocabulary\<close>

text \<open>
  The priority order of the specification, CE > TLE > MLE > RE > WA, and the worst verdict
  of a list of per-test verdicts under it. AC ranks below all of them.
\<close>

fun spec_priority :: "verdict \<Rightarrow> nat" where
  "spec_priority CE = 5"
| "spec_priority TLE = 4"
| "spec_priority MLE = 3"
| "spec_priority RE = 2"
| "spec_priority WA = 1"
| "spec_priority v = 0"

fun spec_worse :: "verdict \<Rightarrow> verdict \<Rightarrow> verdict" where
  "spec_worse a b = (if spec_priority a < spec_priority b then b else a)"

fun spec_worst :: "verdict list \<Rightarrow> verdict" where
  "spec_worst [] = AC"
| "spec_worst (v # vs) = spec_worse v (spec_worst vs)"

text \<open>
  The checker protocol of the specification: the first non-whitespace token of the
  checker's stdout, case-folded to upper case, decides.
\<close>

definition spec_first_token :: "string \<Rightarrow> string" where
  "spec_first_token s = takeWhile (\<lambda>c. \<not> isspace c) (dropWhile isspace s)"

definition spec_accepted :: "string \<Rightarrow> bool" where
  "spec_accepted s = (upper (spec_first_token s) = ''ACCEPT'')"

section \<open>Example runs\<close>

text \<open>A trace in which nothing raises and compilation, if any, succeeds.\<close>

definition clean_trace :: "run_outcome \<Rightarrow> sandbox_trace" where
  "clean_trace r =
     \<lparr>tmpdir_exn = None, write_exn = None, compile_phase = CompileExited 0 [],
      run_phase = r, cleanup_exn = None\<rparr>"

text \<open>A program that exits with status 0 after 12 ms, having used 2000 KB, and printed \<open>out\<close>.\<close>

definition prints :: "string \<Rightarrow> sandbox_trace" where
  "prints out = clean_trace (RunExited 0 12 out [] (Some 2048000))"

definition compile_error_trace :: sandbox_trace where
  "compile_error_trace =
     \<lparr>tmpdir_exn = None, write_exn = None,
      compile_phase = CompileExited 1 ''solution.c:1:1: error: expected declaration'',
      run_phase = RunExited 0 12 [] [] None, cleanup_exn = None\<rparr>"

definition echo_tests :: "test_case list" where
  "echo_tests =
     [\<lparr>tc_input = ''1'', tc_expected_output = ''1'', tc_hidden = False\<rparr>,
      \<lparr>tc_input = ''2'', tc_expected_output = ''2'', tc_hidden = True\<rparr>,
      \<lparr>tc_input = ''3'', tc_expected_output = ''3'', tc_hidden = True\<rparr>]"

definition echo_problem :: problem where
  "echo_problem =
     \<lparr>problem_test_cases = echo_tests, problem_time_limit = 1000, problem_memory_limit = 64,
      problem_checker_code = None, problem_checker_language = None\<rparr>"

definition checked_problem :: problem where
  "checked_problem =
     \<lparr>problem_test_cases = echo_tests, problem_time_limit = 1000, problem_memory_limit = 64,
      problem_checker_code = Some ''print(1)'', problem_checker_language = Some ''python''\<rparr>"

definition python_job :: job where
  "python_job =
     \<lparr>job_submission_id = 1, job_problem_id = 7, job_language = ''python'',
      job_code = ''print(input())''\<rparr>"

definition c_job :: job where
  "c_job =
     \<lparr>job_submission_id = 1, job_problem_id = 7, job_language = ''c'',
      job_code = ''int main( {''\<rparr>"

definition pending_row :: submission where
  "pending_row =
     \<lparr>sub_verdict = PENDING, sub_execution_time = None, sub_memory_used = None,
      sub_test_cases_passed = None, sub_total_test_cases = None, sub_judge_output = None,
      sub_judged_at = None\<rparr>"

text \<open>A row that an earlier run of the judge left in the terminal state AC.\<close>

definition accepted_row :: submission where
  "accepted_row =
     \<lparr>sub_verdict = AC, sub_execution_time = Some 12, sub_memory_used = Some 2000,
      sub_test_cases_passed = Some 3, sub_total_test_cases = Some 3,
      sub_judge_output = Some (map (\<lambda>i.
          \<lparr>tr_test_case = i, tr_verdict = AC, tr_execution_time = 12, tr_memory_used = 2000,
           tr_error = None, tr_checker_message = Some []\<rparr>) [1, 2, 3]),
      sub_judged_at = Some ''2025-01-01T00:00:00''\<rparr>"

text \<open>A store with one submission, number 1, and at most one problem, number 7.\<close>

definition store_of :: "submission \<Rightarrow> problem option \<Rightarrow> store" where
  "store_of row p =
     \<lparr>submissions = (\<lambda>i. if i = 1 then Some row else None),
      problems = (\<lambda>i. if i = 7 then p else None)\<rparr>"

definition world_of :: "(nat \<Rightarrow> sandbox_trace) \<Rightarrow> (nat \<Rightarrow> sandbox_trace) \<Rightarrow> world" where
  "world_of u c = \<lparr>user_trace = u, checker_trace = c, now_isoformat = ''2025-01-02T03:04:05''\<rparr>"

text \<open>The submission echoes its input; the checker, where there is one, accepts.\<close>

definition echo_world :: world where
  "echo_world =
     world_of (\<lambda>i. if i = 0 then prints ''1\<newline>'' else if i = 1 then prints ''2\<newline>''
                    else prints ''3\<newline>'')
              (\<lambda>i. prints ''ACCEPT\<newline>'')"

text \<open>The submission prints 5 on the second test case.\<close>

definition wrong_world :: world where
  "wrong_world =
     world_of (\<lambda>i. if i = 0 then prints ''1\<newline>'' else prints ''5\<newline>'')
              (\<lambda>i. prints ''ACCEPT\<newline>'')"

text \<open>The submission does not compile.\<close>

definition broken_world :: world where
  "broken_world = world_of (\<lambda>i. compile_error_trace) (\<lambda>i. prints ''ACCEPT\<newline>'')"

text \<open>The submission echoes its input; the checker crashes with exit status 1.\<close>

definition crashing_checker_world :: world where
  "crashing_checker_world =
     world_of (\<lambda>i. if i = 0 then prints ''1\<newline>'' else if i = 1 then prints ''2\<newline>''
                    else prints ''3\<newline>'')
              (\<lambda>i. clean_trace (RunExited 1 30 [] ''Traceback'' (Some 1024000)))"

section \<open>Properties of the string functions\<close>

lemma rstrip_Cons:
  assumes "\<not> isspace x"
  shows "rstrip (x # xs) = x # rstrip xs"
proof (cases "\<forall>c \<in> set (rev xs). isspace c")
  case True
  then have "dropWhile isspace (rev xs @ [x]) = [x]" and "dropWhile isspace (rev xs) = []"
    using assms by (simp_all add: dropWhile_append)
  then show ?thesis by (simp add: rstrip_def)
next
  case False
  then have "dropWhile isspace (rev xs @ [x]) = dropWhile isspace (rev xs) @ [x]"
    by (simp add: dropWhile_append)
  then show ?thesis by (simp add: rstrip_def)
qed

lemma rstrip_idem: "rstrip (rstrip s) = rstrip s"
  by (simp add: rstrip_def)

lemma strip_idem: "strip (strip s) = strip s"
proof (cases "lstrip s")
  case Nil
  then have z: "strip s = []" by (simp add: strip_def rstrip_def)
  have "strip [] = []" by (simp add: strip_def rstrip_def lstrip_def)
  with z show ?thesis by simp
next
  case (Cons x xs)
  then have "dropWhile isspace s \<noteq> []" by (simp add: lstrip_def)
  from hd_dropWhile[OF this] Cons have nx: "\<not> isspace x" by (simp add: lstrip_def)
  have "strip s = x # rstrip xs"
    using Cons nx by (simp add: strip_def rstrip_Cons)
  moreover have "strip (x # rstrip xs) = x # rstrip xs"
    using nx by (simp add: strip_def lstrip_def rstrip_Cons rstrip_idem)
  ultimately show ?thesis by simp
qed

text \<open>NEL and the no-break space are whitespace, as they are for \<open>str.strip()\<close>.\<close>

lemma strip_no_break_space:
  "strip [CHR ''1'', CHR 0xA0] = ''1''"
  "strip [CHR 0x85, CHR ''1''] = ''1''"
  "strip (''ACCEPT'' @ [CHR 0xA0, CHR 0x0A]) = ''ACCEPT''"
  by (simp_all add: strip_def lstrip_def rstrip_def isspace_def whitespace_chars_def)

text \<open>
  \<open>strip\<close> removes a run of whitespace at each end and nothing else: what is left neither
  starts nor ends with whitespace, and the characters in between are untouched.
\<close>

lemma rstrip_decomposition:
  "\<exists>b. s = rstrip s @ b \<and> (\<forall>c \<in> set b. isspace c)"
proof -
  have "rev s = takeWhile isspace (rev s) @ dropWhile isspace (rev s)" by simp
  then have "s = rev (dropWhile isspace (rev s)) @ rev (takeWhile isspace (rev s))"
    by (metis rev_append rev_rev_ident)
  moreover have "\<forall>c \<in> set (rev (takeWhile isspace (rev s))). isspace c"
    by (auto dest: set_takeWhileD)
  ultimately show ?thesis unfolding rstrip_def by blast
qed

lemma strip_decomposition:
  "\<exists>a b. s = a @ strip s @ b \<and> (\<forall>c \<in> set a. isspace c) \<and> (\<forall>c \<in> set b. isspace c)"
proof -
  obtain b where b: "lstrip s = rstrip (lstrip s) @ b" "\<forall>c \<in> set b. isspace c"
    using rstrip_decomposition[of "lstrip s"] by blast
  have "s = takeWhile isspace s @ lstrip s" by (simp add: lstrip_def)
  with b(1) have "s = takeWhile isspace s @ strip s @ b" by (simp add: strip_def)
  moreover have "\<forall>c \<in> set (takeWhile isspace s). isspace c" by (auto dest: set_takeWhileD)
  ultimately show ?thesis using b(2) by blast
qed

lemma strip_ends:
  assumes "strip s \<noteq> []"
  shows "\<not> isspace (hd (strip s)) \<and> \<not> isspace (last (strip s))"
proof -
  from assms have ne: "dropWhile isspace (rev (lstrip s)) \<noteq> []"
    by (simp add: strip_def rstrip_def)
  from hd_dropWhile[OF ne] have "\<not> isspace (last (strip s))"
    using ne by (simp add: strip_def rstrip_def last_rev)
  moreover have "\<not> isspace (hd (strip s))"
  proof (cases "lstrip s")
    case Nil
    with assms show ?thesis by (simp add: strip_def rstrip_def)
  next
    case (Cons x xs)
    then have "dropWhile isspace s \<noteq> []" by (simp add: lstrip_def)
    from hd_dropWhile[OF this] Cons have nx: "\<not> isspace x" by (simp add: lstrip_def)
    then show ?thesis using Cons by (simp add: strip_def rstrip_Cons)
  qed
  ultimately show ?thesis by simp
qed

section \<open>Properties of the executor\<close>

lemma execution_step_shape:
  assumes "execution_step tlim mlim ro = Inr r"
  shows "verdict r \<in> {TLE, MLE, RE, SUCCESS} \<and> execution_time r \<noteq> None \<and> memory_used r \<noteq> None
         \<and> (verdict r = SUCCESS \<longrightarrow> output_str r \<noteq> None)"
  using assms
  by (cases "(tlim, mlim, ro)" rule: execution_step.cases)
     (auto simp: Let_def split: if_splits option.splits)

lemma compilation_step_shape:
  assumes "compilation_step config c = Inr (Some r)"
  shows "verdict r = CE \<and> execution_time r = Some 0 \<and> memory_used r = Some 0"
  using assms
  by (auto split: option.splits if_splits compile_outcome.splits)

lemma try_block_shape:
  assumes "try_block config tlim mlim t = Inr r"
  shows "verdict r \<in> {CE, TLE, MLE, RE, SUCCESS} \<and> execution_time r \<noteq> None \<and> memory_used r \<noteq> None
         \<and> (verdict r = SUCCESS \<longrightarrow> output_str r \<noteq> None)"
proof -
  from assms have wb: "with_block config tlim mlim t = Inr r"
    by (auto simp: try_block_def split: option.splits)
  then consider (comp) "compilation_step config (compile_phase t) = Inr (Some r)"
    | (run) "execution_step tlim mlim (run_phase t) = Inr r"
    by (auto simp: with_block_def split: option.splits sum.splits)
  then show ?thesis
  proof cases
    case comp
    from compilation_step_shape[OF comp] show ?thesis by simp
  next
    case run
    from execution_step_shape[OF run] show ?thesis by auto
  qed
qed

lemma execute_code_verdict:
  "verdict (execute_code language code test_input tlim mlim t) \<in> {CE, TLE, MLE, RE, SUCCESS}"
proof (cases "language_configs language")
  case None
  then show ?thesis by (simp add: execute_code_def)
next
  case (Some config)
  show ?thesis
  proof (cases "try_block config tlim mlim t")
    case (Inl e)
    with Some show ?thesis by (simp add: execute_code_def)
  next
    case (Inr r)
    from try_block_shape[OF Inr] Some Inr show ?thesis by (simp add: execute_code_def)
  qed
qed

lemma execute_code_success_keys:
  assumes "verdict (execute_code language code test_input tlim mlim t) = SUCCESS"
  shows "\<exists>out et mu. output_str (execute_code language code test_input tlim mlim t) = Some out
            \<and> execution_time (execute_code language code test_input tlim mlim t) = Some et
            \<and> memory_used (execute_code language code test_input tlim mlim t) = Some mu"
proof (cases "language_configs language")
  case None
  with assms show ?thesis by (simp add: execute_code_def)
next
  case (Some config)
  show ?thesis
  proof (cases "try_block config tlim mlim t")
    case (Inl e)
    with Some assms show ?thesis by (simp add: execute_code_def)
  next
    case (Inr r)
    with Some have eq: "execute_code language code test_input tlim mlim t = r"
      by (simp add: execute_code_def)
    from try_block_shape[OF Inr] assms eq show ?thesis by auto
  qed
qed

section \<open>The judge never raises\<close>

lemma run_dynamic_checker_returns:
  "\<exists>ok msg. run_dynamic_checker cc cl uo eo ti t = Inr (ok, msg)"
proof -
  let ?r = "execute_code cl cc (json_dumps [(''input'', ti), (''expected'', eo), (''actual'', uo)]) 5000 64 t"
  show ?thesis
  proof (cases "verdict ?r = SUCCESS")
    case True
    from execute_code_success_keys[OF True] obtain out where "output_str ?r = Some out" by blast
    with True show ?thesis by (simp add: run_dynamic_checker_def Let_def)
  next
    case False
    then show ?thesis by (auto simp: run_dynamic_checker_def Let_def)
  qed
qed

lemma check_output_returns:
  "\<exists>ok msg. check_output cc cl uo eo ti t = Inr (ok, msg)"
  using run_dynamic_checker_returns
  by (cases "(cc, cl, uo, eo, ti, t)" rule: check_output.cases) auto


lemma judge_test_case_step:
  "\<exists>st' stop r. judge_test_case j p w i tc st = Inr (st', stop)
      \<and> results st' = results st @ [r] \<and> tr_test_case r = i + 1
      \<and> (if stop then tr_verdict r \<in> {CE, TLE, MLE, RE, WA} \<and> passed_count st' = passed_count st
          else tr_verdict r = AC \<and> passed_count st' = passed_count st + 1)"
proof -
  let ?r = "execute_code (job_language j) (job_code j) (tc_input tc)
              (problem_time_limit p) (problem_memory_limit p) (user_trace w i)"
  show ?thesis
  proof (cases "verdict ?r = SUCCESS")
    case False
    moreover from execute_code_verdict[of "job_language j" "job_code j" "tc_input tc"
        "problem_time_limit p" "problem_memory_limit p" "user_trace w i"] False
    have "verdict ?r \<in> {CE, TLE, MLE, RE, WA}" by auto
    ultimately show ?thesis
      by (auto simp: judge_test_case_def Let_def)
  next
    case True
    from execute_code_success_keys[OF True] obtain out et mu where
      keys: "output_str ?r = Some out" "execution_time ?r = Some et" "memory_used ?r = Some mu"
      by blast
    obtain ok msg where
      chk: "check_output (problem_checker_code p) (problem_checker_language p) out
              (tc_expected_output tc) (tc_input tc) (checker_trace w i) = Inr (ok, msg)"
      using check_output_returns by blast
    from True keys chk show ?thesis
      by (cases ok) (auto simp: judge_test_case_def Let_def)
  qed
qed

lemma judge_loop_shape:
  "\<exists>st' new. judge_loop j p w i tcs st = Inr st' \<and> results st' = results st @ new
      \<and> ((\<forall>r \<in> set new. tr_verdict r = AC) \<and> length new = length tcs
            \<and> passed_count st' = passed_count st + length tcs
          \<or> (\<exists>oks r. new = oks @ [r] \<and> (\<forall>r \<in> set oks. tr_verdict r = AC)
                \<and> tr_verdict r \<in> {CE, TLE, MLE, RE, WA} \<and> length new \<le> length tcs
                \<and> passed_count st' = passed_count st + length oks))"
proof (induction tcs arbitrary: i st)
  case Nil
  show ?case by simp
next
  case (Cons tc tcs)
  obtain st1 stop r where
    step: "judge_test_case j p w i tc st = Inr (st1, stop)"
    and res: "results st1 = results st @ [r]"
    and alt: "if stop then tr_verdict r \<in> {CE, TLE, MLE, RE, WA} \<and> passed_count st1 = passed_count st
              else tr_verdict r = AC \<and> passed_count st1 = passed_count st + 1"
    using judge_test_case_step[of j p w i tc st] by blast
  show ?case
  proof (cases stop)
    case True
    with step res alt show ?thesis
      by (intro exI[of _ st1] exI[of _ "[r]"]) auto
  next
    case False
    from Cons.IH[of "Suc i" st1] obtain st' new where
      loop: "judge_loop j p w (Suc i) tcs st1 = Inr st'"
      and res': "results st' = results st1 @ new"
      and alt': "(\<forall>r \<in> set new. tr_verdict r = AC) \<and> length new = length tcs
            \<and> passed_count st' = passed_count st1 + length tcs
          \<or> (\<exists>oks r. new = oks @ [r] \<and> (\<forall>r \<in> set oks. tr_verdict r = AC)
                \<and> tr_verdict r \<in> {CE, TLE, MLE, RE, WA} \<and> length new \<le> length tcs
                \<and> passed_count st' = passed_count st1 + length oks)"
      by blast
    from False alt have r_ac: "tr_verdict r = AC" and pc: "passed_count st1 = passed_count st + 1"
      by simp_all
    from alt' show ?thesis
    proof
      assume a: "(\<forall>r \<in> set new. tr_verdict r = AC) \<and> length new = length tcs
            \<and> passed_count st' = passed_count st1 + length tcs"
      with step False loop res res' r_ac pc show ?thesis
        by (intro exI[of _ st'] exI[of _ "r # new"]) auto
    next
      assume "\<exists>oks r. new = oks @ [r] \<and> (\<forall>r \<in> set oks. tr_verdict r = AC)
                \<and> tr_verdict r \<in> {CE, TLE, MLE, RE, WA} \<and> length new \<le> length tcs
                \<and> passed_count st' = passed_count st1 + length oks"
      then obtain oks r' where b: "new = oks @ [r']" "\<forall>r \<in> set oks. tr_verdict r = AC"
        "tr_verdict r' \<in> {CE, TLE, MLE, RE, WA}" "length new \<le> length tcs"
        "passed_count st' = passed_count st1 + length oks" by blast
      have "\<exists>oks2 r2. r # new = oks2 @ [r2] \<and> (\<forall>r \<in> set oks2. tr_verdict r = AC)
                \<and> tr_verdict r2 \<in> {CE, TLE, MLE, RE, WA} \<and> length (r # new) \<le> length (tc # tcs)
                \<and> passed_count st' = passed_count st + length oks2"
        using b r_ac pc by (intro exI[of _ "r # oks"] exI[of _ r']) auto
      with step False loop res res' show ?thesis
        by (intro exI[of _ st'] exI[of _ "r # new"]) auto
    qed
  qed
qed

lemma problems_update_submission [simp]:
  "problems (update_submission i f s) = problems s"
  by (simp add: update_submission_def split: option.splits)

lemma submissions_update_submission:
  "submissions (update_submission i f s) i = map_option f (submissions s i)"
  by (simp add: update_submission_def split: option.splits)

lemma update_submission_twice:
  "update_submission i f (update_submission i g s) = update_submission i (f \<circ> g) s"
  by (simp add: update_submission_def split: option.splits)

lemma judge_submission_returns: "\<exists>s'. judge_submission j w s = Inr s'"
proof (cases "problems s (job_problem_id j)")
  case None
  then show ?thesis by (simp add: judge_submission_def Let_def)
next
  case (Some p)
  obtain st where "judge_loop j p w 0 (problem_test_cases p)
      \<lparr>results = [], passed_count = 0, max_time = 0, max_memory = 0\<rparr> = Inr st"
    using judge_loop_shape by blast
  with Some show ?thesis by (simp add: judge_submission_def Let_def)
qed

lemma judged_row_missing:
  assumes "problems s (job_problem_id j) = None"
  shows "judged_row j w s =
           map_option (\<lambda>row. row\<lparr>sub_verdict := JUDGING\<rparr>) (submissions s (job_submission_id j))"
  using assms
  by (simp add: judged_row_def judge_submission_def Let_def submissions_update_submission)

lemma judged_row_missing_verdict:
  assumes "problems s (job_problem_id j) = None"
    and "judged_row j w s = Some row"
  shows "sub_verdict row = JUDGING"
proof (cases "submissions s (job_submission_id j)")
  case None
  with judged_row_missing[OF assms(1), of w] assms(2) show ?thesis by simp
next
  case (Some row0)
  with judged_row_missing[OF assms(1), of w] assms(2)
  have "row = row0\<lparr>sub_verdict := JUDGING\<rparr>" by simp
  then show ?thesis by simp
qed

lemma judged_row_source:
  assumes "judged_row j w s = Some row"
  shows "\<exists>row0. submissions s (job_submission_id j) = Some row0"
proof (cases "submissions s (job_submission_id j)")
  case None
  then have "\<And>f. update_submission (job_submission_id j) f s = s"
    by (simp add: update_submission_def)
  with None assms show ?thesis
    by (auto simp: judged_row_def judge_submission_def Let_def split: sum.splits option.splits)
next
  case (Some row0)
  then show ?thesis by simp
qed

text \<open>
  When the problem is found, the row is overwritten with the outcome of the loop, and the
  records and the counter of that outcome have the shape the loop gives them.
\<close>

lemma judged_row_found:
  assumes "problems s (job_problem_id j) = Some p"
    and "submissions s (job_submission_id j) = Some row0"
  shows "\<exists>(st :: judge_state) oks. judged_row j w s =
            Some (row0\<lparr>sub_verdict := final_verdict (passed_count st)
                                      (length (problem_test_cases p)) (results st),
                       sub_execution_time := Some (max_time st),
                       sub_memory_used := Some (max_memory st),
                       sub_test_cases_passed := Some (passed_count st),
                       sub_total_test_cases := Some (length (problem_test_cases p)),
                       sub_judge_output := Some (results st),
                       sub_judged_at := Some (now_isoformat w)\<rparr>)
          \<and> (\<forall>r \<in> set oks. tr_verdict r = AC) \<and> passed_count st = length oks
          \<and> (results st = oks \<and> length oks = length (problem_test_cases p)
              \<or> (\<exists>r. results st = oks @ [r] \<and> tr_verdict r \<in> {CE, TLE, MLE, RE, WA}
                    \<and> length oks < length (problem_test_cases p)))"
proof -
  let ?init = "\<lparr>results = [], passed_count = 0, max_time = 0, max_memory = 0\<rparr>"
  obtain st new where loop: "judge_loop j p w 0 (problem_test_cases p) ?init = Inr st"
    and res: "results st = results ?init @ new"
    and alt: "(\<forall>r \<in> set new. tr_verdict r = AC) \<and> length new = length (problem_test_cases p)
            \<and> passed_count st = passed_count ?init + length (problem_test_cases p)
          \<or> (\<exists>oks r. new = oks @ [r] \<and> (\<forall>r \<in> set oks. tr_verdict r = AC)
                \<and> tr_verdict r \<in> {CE, TLE, MLE, RE, WA}
                \<and> length new \<le> length (problem_test_cases p)
                \<and> passed_count st = passed_count ?init + length oks)"
    using judge_loop_shape[of j p w 0 "problem_test_cases p" ?init] by blast
  have row: "judged_row j w s =
            Some (row0\<lparr>sub_verdict := final_verdict (passed_count st)
                                      (length (problem_test_cases p)) (results st),
                       sub_execution_time := Some (max_time st),
                       sub_memory_used := Some (max_memory st),
                       sub_test_cases_passed := Some (passed_count st),
                       sub_total_test_cases := Some (length (problem_test_cases p)),
                       sub_judge_output := Some (results st),
                       sub_judged_at := Some (now_isoformat w)\<rparr>)"
    using assms loop
    by (simp add: judged_row_def judge_submission_def Let_def submissions_update_submission)
  let ?row = "\<lambda>st. row0\<lparr>sub_verdict := final_verdict (passed_count st)
                                      (length (problem_test_cases p)) (results st),
                       sub_execution_time := Some (max_time st),
                       sub_memory_used := Some (max_memory st),
                       sub_test_cases_passed := Some (passed_count st),
                       sub_total_test_cases := Some (length (problem_test_cases p)),
                       sub_judge_output := Some (results st),
                       sub_judged_at := Some (now_isoformat w)\<rparr>"
  let ?shape = "\<lambda>st oks. (\<forall>r \<in> set oks. tr_verdict r = AC) \<and> passed_count st = length oks
          \<and> (results st = oks \<and> length oks = length (problem_test_cases p)
              \<or> (\<exists>r. results st = oks @ [r] \<and> tr_verdict r \<in> {CE, TLE, MLE, RE, WA}
                    \<and> length oks < length (problem_test_cases p)))"
  from alt have "\<exists>oks. ?shape st oks"
  proof
    assume "(\<forall>r \<in> set new. tr_verdict r = AC) \<and> length new = length (problem_test_cases p)
            \<and> passed_count st = passed_count ?init + length (problem_test_cases p)"
    with res have "?shape st new" by simp
    then show ?thesis ..
  next
    assume "\<exists>oks r. new = oks @ [r] \<and> (\<forall>r \<in> set oks. tr_verdict r = AC)
                \<and> tr_verdict r \<in> {CE, TLE, MLE, RE, WA}
                \<and> length new \<le> length (problem_test_cases p)
                \<and> passed_count st = passed_count ?init + length oks"
    then obtain oks r where "new = oks @ [r]" "\<forall>r \<in> set oks. tr_verdict r = AC"
      "tr_verdict r \<in> {CE, TLE, MLE, RE, WA}" "length new \<le> length (problem_test_cases p)"
      "passed_count st = passed_count ?init + length oks" by blast
    with res have "?shape st oks" by auto
    then show ?thesis ..
  qed
  then obtain oks where "?shape st oks" ..
  with row have both: "judged_row j w s = Some (?row st) \<and> ?shape st oks" by simp
  show ?thesis by (rule exI[of _ st], rule exI[of _ oks]) (fact both)
qed

text \<open>The same, read off a row that the judge has left in a terminal state.\<close>

lemma judged_row_fields:
  assumes "judged_row j w s = Some row"
    and "sub_verdict row \<notin> {PENDING, JUDGING}"
  shows "\<exists>n oks. sub_total_test_cases row = Some n
           \<and> sub_test_cases_passed row = Some (length oks)
           \<and> (\<forall>r \<in> set oks. tr_verdict r = AC)
           \<and> (sub_judge_output row = Some oks \<and> length oks = n
                 \<and> sub_verdict row = final_verdict (length oks) n oks
               \<or> (\<exists>r. sub_judge_output row = Some (oks @ [r])
                     \<and> tr_verdict r \<in> {CE, TLE, MLE, RE, WA} \<and> length oks < n
                     \<and> sub_verdict row = final_verdict (length oks) n (oks @ [r])))"
proof (cases "problems s (job_problem_id j)")
  case None
  from judged_row_missing_verdict[OF None assms(1)] assms(2) show ?thesis by simp
next
  case (Some p)
  let ?n = "length (problem_test_cases p)"
  from judged_row_source[OF assms(1)] obtain row0
    where "submissions s (job_submission_id j) = Some row0" ..
  from judged_row_found[OF Some this, of w] obtain st :: judge_state and oks where
    row: "judged_row j w s =
            Some (row0\<lparr>sub_verdict := final_verdict (passed_count st) ?n (results st),
                       sub_execution_time := Some (max_time st),
                       sub_memory_used := Some (max_memory st),
                       sub_test_cases_passed := Some (passed_count st),
                       sub_total_test_cases := Some ?n,
                       sub_judge_output := Some (results st),
                       sub_judged_at := Some (now_isoformat w)\<rparr>)"
    and oks: "\<forall>r \<in> set oks. tr_verdict r = AC" "passed_count st = length oks"
    and alt: "results st = oks \<and> length oks = ?n
              \<or> (\<exists>r. results st = oks @ [r] \<and> tr_verdict r \<in> {CE, TLE, MLE, RE, WA}
                    \<and> length oks < ?n)"
    by blast
  from row assms(1) have fields: "sub_total_test_cases row = Some ?n"
    "sub_test_cases_passed row = Some (passed_count st)"
    "sub_judge_output row = Some (results st)"
    "sub_verdict row = final_verdict (passed_count st) ?n (results st)"
    by auto
  from alt show ?thesis
  proof
    assume "results st = oks \<and> length oks = ?n"
    with fields oks have "sub_total_test_cases row = Some ?n
           \<and> sub_test_cases_passed row = Some (length oks)
           \<and> (\<forall>r \<in> set oks. tr_verdict r = AC)
           \<and> (sub_judge_output row = Some oks \<and> length oks = ?n
                 \<and> sub_verdict row = final_verdict (length oks) ?n oks
               \<or> (\<exists>r. sub_judge_output row = Some (oks @ [r])
                     \<and> tr_verdict r \<in> {CE, TLE, MLE, RE, WA} \<and> length oks < ?n
                     \<and> sub_verdict row = final_verdict (length oks) ?n (oks @ [r])))"
      by simp
    then show ?thesis by blast
  next
    assume "\<exists>r. results st = oks @ [r] \<and> tr_verdict r \<in> {CE, TLE, MLE, RE, WA}
                    \<and> length oks < ?n"
    then obtain r where "results st = oks @ [r]" "tr_verdict r \<in> {CE, TLE, MLE, RE, WA}"
      "length oks < ?n" by blast
    with fields oks have "sub_total_test_cases row = Some ?n
           \<and> sub_test_cases_passed row = Some (length oks)
           \<and> (\<forall>r \<in> set oks. tr_verdict r = AC)
           \<and> (sub_judge_output row = Some oks \<and> length oks = ?n
                 \<and> sub_verdict row = final_verdict (length oks) ?n oks
               \<or> (\<exists>r. sub_judge_output row = Some (oks @ [r])
                     \<and> tr_verdict r \<in> {CE, TLE, MLE, RE, WA} \<and> length oks < ?n
                     \<and> sub_verdict row = final_verdict (length oks) ?n (oks @ [r])))"
      by auto
    then show ?thesis by blast
  qed
qed

lemma final_verdict_AC_iff: "final_verdict passed n rs = AC \<longleftrightarrow> passed = n"
  by (simp add: final_verdict_def Let_def)

lemma final_verdict_terminal: "final_verdict passed n rs \<in> {AC, WA, TLE, MLE, RE}"
  by (simp add: final_verdict_def Let_def)

lemma final_verdict_not_transient:
  "final_verdict passed n rs \<noteq> PENDING \<and> final_verdict passed n rs \<noteq> JUDGING"
  by (simp add: final_verdict_def Let_def)

text \<open>
  Where the aggregation agrees with the specification's priority order: a list of accepted
  records followed by one record that is TLE, MLE, RE or WA.
\<close>

lemma spec_worst_all_AC:
  "\<forall>r \<in> set oks. tr_verdict r = AC \<Longrightarrow> spec_worst (map tr_verdict oks) = AC"
  by (induction oks) auto

lemma spec_worst_last:
  assumes "\<forall>r \<in> set oks. tr_verdict r = AC"
    and "tr_verdict r \<in> {CE, TLE, MLE, RE, WA}"
  shows "spec_worst (map tr_verdict (oks @ [r])) = tr_verdict r"
  using assms
proof (induction oks)
  case Nil
  then show ?case by auto
next
  case (Cons a oks)
  then show ?case by auto
qed

lemma final_verdict_spec_worst:
  assumes "\<forall>x \<in> set oks. tr_verdict x = AC"
    and "tr_verdict r \<in> {TLE, MLE, RE, WA}"
    and "length oks \<noteq> n"
  shows "final_verdict (length oks) n (oks @ [r]) = spec_worst (map tr_verdict (oks @ [r]))"
proof -
  have "final_verdict (length oks) n (oks @ [r]) = tr_verdict r"
    using assms by (auto simp: final_verdict_def Let_def)
  moreover have "tr_verdict r \<in> {CE, TLE, MLE, RE, WA}" using assms(2) by auto
  ultimately show ?thesis using spec_worst_last[OF assms(1)] by simp
qed

section \<open>What one test case contributes\<close>

lemma execute_code_success_output:
  assumes "verdict (execute_code language code test_input tlim mlim t) = SUCCESS"
    and "run_phase t = RunExited sc el out err usage"
  shows "output_str (execute_code language code test_input tlim mlim t) = Some (strip out)"
proof (cases "language_configs language")
  case None
  with assms(1) show ?thesis by (simp add: execute_code_def)
next
  case (Some config)
  show ?thesis
  proof (cases "try_block config tlim mlim t")
    case (Inl e)
    with Some assms(1) show ?thesis by (simp add: execute_code_def)
  next
    case (Inr r)
    with Some have eq: "execute_code language code test_input tlim mlim t = r"
      by (simp add: execute_code_def)
    from Inr have wb: "with_block config tlim mlim t = Inr r"
      by (auto simp: try_block_def split: option.splits)
    then consider (comp) "compilation_step config (compile_phase t) = Inr (Some r)"
      | (run) "execution_step tlim mlim (run_phase t) = Inr r"
      by (auto simp: with_block_def split: option.splits sum.splits)
    then show ?thesis
    proof cases
      case comp
      from compilation_step_shape[OF comp] assms(1) eq show ?thesis by simp
    next
      case run
      with assms(2) have "execution_step tlim mlim (RunExited sc el out err usage) = Inr r"
        by simp
      moreover from assms(1) eq have "verdict r = SUCCESS" by simp
      ultimately have "output_str r = Some (strip out)"
        by (auto simp: Let_def split: if_splits)
      with eq show ?thesis by simp
    qed
  qed
qed

lemma judge_test_case_checked:
  assumes "verdict (execute_code (job_language j) (job_code j) (tc_input tc)
             (problem_time_limit p) (problem_memory_limit p) (user_trace w i)) = SUCCESS"
    and "output_str (execute_code (job_language j) (job_code j) (tc_input tc)
             (problem_time_limit p) (problem_memory_limit p) (user_trace w i)) = Some uo"
    and "check_output (problem_checker_code p) (problem_checker_language p) uo
           (tc_expected_output tc) (tc_input tc) (checker_trace w i) = Inr (ok, msg)"
  shows "\<exists>st' r. judge_test_case j p w i tc st = Inr (st', \<not> ok)
           \<and> results st' = results st @ [r]
           \<and> tr_test_case r = i + 1
           \<and> tr_verdict r = (if ok then AC else WA)
           \<and> tr_checker_message r = Some msg
           \<and> passed_count st' = (if ok then passed_count st + 1 else passed_count st)"
proof -
  let ?r = "execute_code (job_language j) (job_code j) (tc_input tc)
              (problem_time_limit p) (problem_memory_limit p) (user_trace w i)"
  from execute_code_success_keys[OF assms(1)] obtain et mu where
    "execution_time ?r = Some et" "memory_used ?r = Some mu" by blast
  with assms show ?thesis
    by (cases ok) (simp_all add: judge_test_case_def Let_def)
qed

section \<open>The example runs, evaluated\<close>

lemmas string_eval = strip_def lstrip_def rstrip_def isspace_def whitespace_chars_def
  upper_def upper_char_def lower_def lower_char_def ascii_lowercase_def ascii_uppercase_def
  startswith_def spec_first_token_def spec_accepted_def

lemmas exec_eval = execute_code_def language_configs_def try_block_def with_block_def
  clean_trace_def prints_def compile_error_trace_def Let_def

lemmas judge_eval = judged_row_def judge_submission_def update_submission_def
  judge_test_case_def final_verdict_def store_of_def world_of_def
  echo_tests_def echo_problem_def checked_problem_def python_job_def c_job_def
  pending_row_def accepted_row_def run_dynamic_checker_def

lemma echo_run:
  "judged_row python_job echo_world (store_of pending_row (Some echo_problem)) =
     Some \<lparr>sub_verdict = AC, sub_execution_time = Some 12, sub_memory_used = Some 2000,
           sub_test_cases_passed = Some 3, sub_total_test_cases = Some 3,
           sub_judge_output = Some
             [\<lparr>tr_test_case = 1, tr_verdict = AC, tr_execution_time = 12,
               tr_memory_used = 2000, tr_error = None, tr_checker_message = Some []\<rparr>,
              \<lparr>tr_test_case = 2, tr_verdict = AC, tr_execution_time = 12,
               tr_memory_used = 2000, tr_error = None, tr_checker_message = Some []\<rparr>,
              \<lparr>tr_test_case = 3, tr_verdict = AC, tr_execution_time = 12,
               tr_memory_used = 2000, tr_error = None, tr_checker_message = Some []\<rparr>],
           sub_judged_at = Some ''2025-01-02T03:04:05''\<rparr>"
  by (simp add: judge_eval exec_eval string_eval echo_world_def)

lemma wrong_run:
  "judged_row python_job wrong_world (store_of pending_row (Some echo_problem)) =
     Some \<lparr>sub_verdict = WA, sub_execution_time = Some 12, sub_memory_used = Some 2000,
           sub_test_cases_passed = Some 1, sub_total_test_cases = Some 3,
           sub_judge_output = Some
             [\<lparr>tr_test_case = 1, tr_verdict = AC, tr_execution_time = 12,
               tr_memory_used = 2000, tr_error = None, tr_checker_message = Some []\<rparr>,
              \<lparr>tr_test_case = 2, tr_verdict = WA, tr_execution_time = 12,
               tr_memory_used = 2000, tr_error = None, tr_checker_message = Some []\<rparr>],
           sub_judged_at = Some ''2025-01-02T03:04:05''\<rparr>"
  by (simp add: judge_eval exec_eval string_eval wrong_world_def)

lemma broken_run:
  "judged_row c_job broken_world (store_of pending_row (Some echo_problem)) =
     Some \<lparr>sub_verdict = WA, sub_execution_time = Some 0, sub_memory_used = Some 0,
           sub_test_cases_passed = Some 0, sub_total_test_cases = Some 3,
           sub_judge_output = Some
             [\<lparr>tr_test_case = 1, tr_verdict = CE, tr_execution_time = 0, tr_memory_used = 0,
               tr_error = Some ''solution.c:1:1: error: expected declaration'',
               tr_checker_message = None\<rparr>],
           sub_judged_at = Some ''2025-01-02T03:04:05''\<rparr>"
  by (simp add: judge_eval exec_eval string_eval broken_world_def)

lemma crashing_checker_run:
  "judged_row python_job crashing_checker_world (store_of pending_row (Some checked_problem)) =
     Some \<lparr>sub_verdict = WA, sub_execution_time = Some 12, sub_memory_used = Some 2000,
           sub_test_cases_passed = Some 0, sub_total_test_cases = Some 3,
           sub_judge_output = Some
             [\<lparr>tr_test_case = 1, tr_verdict = WA, tr_execution_time = 12,
               tr_memory_used = 2000, tr_error = None,
               tr_checker_message = Some ''Checker execution failed''\<rparr>],
           sub_judged_at = Some ''2025-01-02T03:04:05''\<rparr>"
  by (simp add: judge_eval exec_eval string_eval crashing_checker_world_def)

lemma rejudged_run:
  "judged_row python_job wrong_world (store_of accepted_row (Some echo_problem)) =
     Some \<lparr>sub_verdict = WA, sub_execution_time = Some 12, sub_memory_used = Some 2000,
           sub_test_cases_passed = Some 1, sub_total_test_cases = Some 3,
           sub_judge_output = Some
             [\<lparr>tr_test_case = 1, tr_verdict = AC, tr_execution_time = 12,
               tr_memory_used = 2000, tr_error = None, tr_checker_message = Some []\<rparr>,
              \<lparr>tr_test_case = 2, tr_verdict = WA, tr_execution_time = 12,
               tr_memory_used = 2000, tr_error = None, tr_checker_message = Some []\<rparr>],
           sub_judged_at = Some ''2025-01-02T03:04:05''\<rparr>"
  by (simp add: judge_eval exec_eval string_eval wrong_world_def)

lemma orphan_run:
  "judged_row python_job echo_world (store_of row None) = Some (row\<lparr>sub_verdict := JUDGING\<rparr>)"
  by (simp add: judged_row_def judge_submission_def update_submission_def store_of_def
      python_job_def Let_def)

section \<open>The claims\<close>

text \<open>
  C1. The claim: for every judged submission whose recorded per-test results are not all
  AC, the final verdict equals the worst verdict among the recorded results under the
  priority order CE > TLE > MLE > RE > WA.

  The aggregation of \<open>judge_submission\<close> looks for TLE, MLE and RE and falls back to WA;
  it never looks for CE. A submission in C that does not compile gets the single record CE,
  whose worst verdict is CE, and the final verdict WA.
\<close>

theorem C1_compile_error_judged_WA:
  "map_option (map tr_verdict)
     (Option.bind (judged_row c_job broken_world (store_of pending_row (Some echo_problem)))
        sub_judge_output) = Some [CE]
   \<and> spec_worst [CE] = CE
   \<and> map_option sub_verdict
        (judged_row c_job broken_world (store_of pending_row (Some echo_problem))) = Some WA"
  by (simp add: broken_run)

text \<open>
  Where no record is CE the aggregation does follow the priority order: the final verdict
  of a judged submission whose records are not all AC is then the worst recorded verdict.
\<close>

lemma final_verdict_worst_unless_CE:
  assumes "judged_row j w s = Some row"
    and "sub_verdict row \<notin> {PENDING, JUDGING}"
    and "sub_judge_output row = Some out"
    and "\<exists>r \<in> set out. tr_verdict r \<noteq> AC"
    and "\<forall>r \<in> set out. tr_verdict r \<noteq> CE"
  shows "sub_verdict row = spec_worst (map tr_verdict out)"
proof -
  from judged_row_fields[OF assms(1,2)] assms(3,4) obtain n oks r where
    oks: "\<forall>r \<in> set oks. tr_verdict r = AC"
    and out: "out = oks @ [r]"
    and r: "tr_verdict r \<in> {CE, TLE, MLE, RE, WA}"
    and n: "length oks < n"
    and v: "sub_verdict row = final_verdict (length oks) n (oks @ [r])"
    by auto
  from r out assms(5) have "tr_verdict r \<in> {TLE, MLE, RE, WA}" by auto
  from final_verdict_spec_worst[OF oks this, of n] n v out show ?thesis by simp
qed

text \<open>
  C2. For every submission that reaches a terminal state, the final verdict is AC if and
  only if the number of passed test cases equals the total number of test cases.
\<close>

theorem C2_AC_iff_all_passed:
  assumes "judged_row j w s = Some row"
    and "sub_verdict row \<notin> {PENDING, JUDGING}"
  shows "sub_verdict row = AC \<longleftrightarrow> sub_test_cases_passed row = sub_total_test_cases row"
proof -
  from judged_row_fields[OF assms] obtain n and oks :: "test_result list" and rs where
    "sub_total_test_cases row = Some n" "sub_test_cases_passed row = Some (length oks)"
    "sub_verdict row = final_verdict (length oks) n rs"
    by blast
  then show ?thesis by (simp add: final_verdict_AC_iff)
qed

theorem C2_AC_iff_all_passed_witness:
  "\<exists>row. judged_row python_job echo_world (store_of pending_row (Some echo_problem)) = Some row
      \<and> sub_verdict row \<notin> {PENDING, JUDGING}
      \<and> sub_verdict row = AC
      \<and> sub_test_cases_passed row = sub_total_test_cases row"
proof -
  let ?row = "\<lparr>sub_verdict = AC, sub_execution_time = Some 12, sub_memory_used = Some 2000,
           sub_test_cases_passed = Some 3, sub_total_test_cases = Some 3,
           sub_judge_output = Some
             [\<lparr>tr_test_case = 1, tr_verdict = AC, tr_execution_time = 12,
               tr_memory_used = 2000, tr_error = None, tr_checker_message = Some []\<rparr>,
              \<lparr>tr_test_case = 2, tr_verdict = AC, tr_execution_time = 12,
               tr_memory_used = 2000, tr_error = None, tr_checker_message = Some []\<rparr>,
              \<lparr>tr_test_case = 3, tr_verdict = AC, tr_execution_time = 12,
               tr_memory_used = 2000, tr_error = None, tr_checker_message = Some []\<rparr>],
           sub_judged_at = Some ''2025-01-02T03:04:05''\<rparr>"
  have terminal: "sub_verdict ?row \<notin> {PENDING, JUDGING}" by simp
  from C2_AC_iff_all_passed[OF echo_run terminal]
  have "sub_test_cases_passed ?row = sub_total_test_cases ?row" by simp
  with echo_run terminal show ?thesis by simp
qed

text \<open>
  C3. For every judged submission, the number of records in \<open>judge_output\<close> is at most
  the total number of test cases, and whenever evaluation stops early (fewer records than
  test cases), the last record's verdict is not AC and the number of records is the number
  of passed test cases plus one.
\<close>

theorem C3_judge_output_length:
  assumes "judged_row j w s = Some row"
    and "sub_verdict row \<notin> {PENDING, JUDGING}"
  shows "\<exists>out passed n. sub_judge_output row = Some out
           \<and> sub_test_cases_passed row = Some passed
           \<and> sub_total_test_cases row = Some n
           \<and> length out \<le> n
           \<and> (length out < n \<longrightarrow>
                out \<noteq> [] \<and> tr_verdict (last out) \<noteq> AC \<and> length out = passed + 1)"
  using judged_row_fields[OF assms] by auto

theorem C3_judge_output_length_witness:
  "\<exists>row out passed n.
      judged_row python_job wrong_world (store_of pending_row (Some echo_problem)) = Some row
      \<and> sub_verdict row \<notin> {PENDING, JUDGING}
      \<and> sub_judge_output row = Some out
      \<and> sub_test_cases_passed row = Some passed
      \<and> sub_total_test_cases row = Some n
      \<and> length out \<le> n \<and> length out < n
      \<and> out \<noteq> [] \<and> tr_verdict (last out) \<noteq> AC \<and> length out = passed + 1"
proof -
  let ?row = "\<lparr>sub_verdict = WA, sub_execution_time = Some 12, sub_memory_used = Some 2000,
           sub_test_cases_passed = Some 1, sub_total_test_cases = Some 3,
           sub_judge_output = Some
             [\<lparr>tr_test_case = 1, tr_verdict = AC, tr_execution_time = 12,
               tr_memory_used = 2000, tr_error = None, tr_checker_message = Some []\<rparr>,
              \<lparr>tr_test_case = 2, tr_verdict = WA, tr_execution_time = 12,
               tr_memory_used = 2000, tr_error = None, tr_checker_message = Some []\<rparr>],
           sub_judged_at = Some ''2025-01-02T03:04:05''\<rparr>"
  have terminal: "sub_verdict ?row \<notin> {PENDING, JUDGING}" by simp
  from C3_judge_output_length[OF wrong_run terminal] wrong_run terminal
  show ?thesis by simp
qed




text \<open>
  C5. The claim: for every job whose problem cannot be loaded from the store, the judge
  records verdict RE with the message "problem not found" on the submission and stops.

  \<open>judge_submission\<close> returns at once when the problem is missing. The row keeps the
  verdict JUDGING of the first write and gets no record and no message.
\<close>

theorem C5_missing_problem_records_nothing:
  "problems (store_of pending_row None) (job_problem_id python_job) = None
   \<and> map_option sub_verdict
        (judged_row python_job echo_world (store_of pending_row None)) = Some JUDGING
   \<and> Option.bind (judged_row python_job echo_world (store_of pending_row None))
        sub_judge_output = None"
  by (simp add: orphan_run) (simp add: store_of_def pending_row_def)

text \<open>
  C5, as the code has it. When the problem cannot be loaded the judge stops: the store is
  the one the first write left, with the row in JUDGING and its other columns untouched,
  whatever the sandbox would have done.
\<close>

theorem C5_missing_problem_stops:
  assumes "problems s (job_problem_id j) = None"
  shows "judge_submission j w s =
           Inr (update_submission (job_submission_id j) (\<lambda>row. row\<lparr>sub_verdict := JUDGING\<rparr>) s)"
  using assms by (simp add: judge_submission_def Let_def)

theorem C5_missing_problem_stops_witness:
  "problems (store_of pending_row None) (job_problem_id python_job) = None
   \<and> judge_submission python_job echo_world (store_of pending_row None) =
       Inr (update_submission (job_submission_id python_job)
              (\<lambda>row. row\<lparr>sub_verdict := JUDGING\<rparr>) (store_of pending_row None))"
proof -
  have missing: "problems (store_of pending_row None) (job_problem_id python_job) = None"
    by (simp add: store_of_def)
  from C5_missing_problem_stops[OF missing, of echo_world] missing show ?thesis by simp
qed

text \<open>
  C6. The claim: for every checker run that executes successfully, acceptance is decided by
  the first non-whitespace token of the checker's stdout case-folded to upper case, and the
  checker's stdout is returned verbatim as the message.

  \<open>run_dynamic_checker\<close> compares the whole output, stripped and upper-cased, with
  \<open>"ACCEPT"\<close>, and returns the output as \<open>execute_code\<close> stripped it. A checker that prints
  \<open>ACCEPT extra\<close> and a newline is rejected although its first token is \<open>ACCEPT\<close>, and the
  message has lost the newline.
\<close>

theorem C6_first_token_does_not_decide:
  "verdict (execute_code ''python'' ''print(1)''
              (json_dumps [(''input'', ''1''), (''expected'', ''1''), (''actual'', ''1'')])
              5000 64 (prints ''ACCEPT extra\<newline>'')) = SUCCESS
   \<and> spec_accepted ''ACCEPT extra\<newline>''
   \<and> run_dynamic_checker ''print(1)'' ''python'' ''1'' ''1'' ''1'' (prints ''ACCEPT extra\<newline>'')
       = Inr (False, ''ACCEPT extra'')"
  by (simp add: run_dynamic_checker_def exec_eval string_eval)

text \<open>
  C6, as the code has it. When the checker executes successfully, it is accepted exactly
  when its whole stdout, stripped of leading and trailing whitespace and upper-cased, is
  \<open>ACCEPT\<close>; the message is the stripped stdout.
\<close>

theorem C6_whole_output_decides:
  assumes "verdict (execute_code cl cc
             (json_dumps [(''input'', ti), (''expected'', eo), (''actual'', uo)])
             5000 64 t) = SUCCESS"
    and "run_phase t = RunExited sc el out err usage"
  shows "run_dynamic_checker cc cl uo eo ti t = Inr (upper (strip out) = ''ACCEPT'', strip out)"
  using assms execute_code_success_output[OF assms]
  by (simp add: run_dynamic_checker_def Let_def strip_idem)

theorem C6_whole_output_decides_witness:
  "verdict (execute_code ''python'' ''print(1)''
              (json_dumps [(''input'', ''1''), (''expected'', ''1''), (''actual'', ''1'')])
              5000 64 (prints '' accept\<newline>'')) = SUCCESS
   \<and> run_phase (prints '' accept\<newline>'') = RunExited 0 12 '' accept\<newline>'' [] (Some 2048000)
   \<and> run_dynamic_checker ''print(1)'' ''python'' ''1'' ''1'' ''1'' (prints '' accept\<newline>'')
       = Inr (True, ''accept'')"
proof -
  have ok: "verdict (execute_code ''python'' ''print(1)''
              (json_dumps [(''input'', ''1''), (''expected'', ''1''), (''actual'', ''1'')])
              5000 64 (prints '' accept\<newline>'')) = SUCCESS"
    by (simp add: exec_eval)
  have run: "run_phase (prints '' accept\<newline>'') = RunExited 0 12 '' accept\<newline>'' [] (Some 2048000)"
    by (simp add: prints_def clean_trace_def)
  have "strip '' accept\<newline>'' = ''accept''" and "upper ''accept'' = ''ACCEPT''"
    by (simp_all add: string_eval)
  with C6_whole_output_decides[OF ok run] ok run show ?thesis by simp
qed

text \<open>
  C7. For every checker invocation whose execution yields a non-SUCCESS verdict, the checker
  runner returns \<open>(False, "Checker execution failed")\<close>, and the pipeline reports WA on the
  offending test case with the checker message attached, rather than failing the whole
  submission: the loop ends there without an exception, the record last.
\<close>

theorem C7_checker_failure_is_WA:
  assumes "problem_checker_code p = Some cc" and "problem_checker_language p = Some cl"
    and "cc \<noteq> []" and "cl \<noteq> []"
    and "verdict (execute_code (job_language j) (job_code j) (tc_input tc)
             (problem_time_limit p) (problem_memory_limit p) (user_trace w i)) = SUCCESS"
    and "output_str (execute_code (job_language j) (job_code j) (tc_input tc)
             (problem_time_limit p) (problem_memory_limit p) (user_trace w i)) = Some uo"
    and "verdict (execute_code cl cc
             (json_dumps [(''input'', tc_input tc), (''expected'', tc_expected_output tc),
                          (''actual'', uo)])
             5000 64 (checker_trace w i)) \<noteq> SUCCESS"
  shows "run_dynamic_checker cc cl uo (tc_expected_output tc) (tc_input tc) (checker_trace w i)
           = Inr (False, ''Checker execution failed'')
         \<and> (\<exists>st' r. judge_loop j p w i (tc # tcs) st = Inr st'
               \<and> results st' = results st @ [r]
               \<and> tr_test_case r = i + 1
               \<and> tr_verdict r = WA
               \<and> tr_checker_message r = Some ''Checker execution failed''
               \<and> passed_count st' = passed_count st)"
proof -
  have runner: "run_dynamic_checker cc cl uo (tc_expected_output tc) (tc_input tc)
                  (checker_trace w i) = Inr (False, ''Checker execution failed'')"
    using assms(7) by (simp add: run_dynamic_checker_def Let_def)
  with assms(1-4) have "check_output (problem_checker_code p) (problem_checker_language p) uo
           (tc_expected_output tc) (tc_input tc) (checker_trace w i)
           = Inr (False, ''Checker execution failed'')"
    by simp
  from judge_test_case_checked[OF assms(5,6) this, of st] obtain st' r where
    "judge_test_case j p w i tc st = Inr (st', True)" "results st' = results st @ [r]"
    "tr_test_case r = i + 1" "tr_verdict r = WA"
    "tr_checker_message r = Some ''Checker execution failed''"
    "passed_count st' = passed_count st"
    by auto
  then have "\<exists>st' r. judge_loop j p w i (tc # tcs) st = Inr st'
               \<and> results st' = results st @ [r]
               \<and> tr_test_case r = i + 1
               \<and> tr_verdict r = WA
               \<and> tr_checker_message r = Some ''Checker execution failed''
               \<and> passed_count st' = passed_count st"
    by auto
  with runner show ?thesis ..
qed

theorem C7_checker_failure_is_WA_witness:
  "problem_checker_code checked_problem = Some ''print(1)''
   \<and> problem_checker_language checked_problem = Some ''python''
   \<and> verdict (execute_code (job_language python_job) (job_code python_job) ''1''
                (problem_time_limit checked_problem) (problem_memory_limit checked_problem)
                (user_trace crashing_checker_world 0)) = SUCCESS
   \<and> output_str (execute_code (job_language python_job) (job_code python_job) ''1''
                (problem_time_limit checked_problem) (problem_memory_limit checked_problem)
                (user_trace crashing_checker_world 0)) = Some ''1''
   \<and> verdict (execute_code ''python'' ''print(1)''
                (json_dumps [(''input'', ''1''), (''expected'', ''1''), (''actual'', ''1'')])
                5000 64 (checker_trace crashing_checker_world 0)) = RE
   \<and> run_dynamic_checker ''print(1)'' ''python'' ''1'' ''1'' ''1''
        (checker_trace crashing_checker_world 0) = Inr (False, ''Checker execution failed'')
   \<and> (\<exists>st' r. judge_loop python_job checked_problem crashing_checker_world 0 echo_tests
                  \<lparr>results = [], passed_count = 0, max_time = 0, max_memory = 0\<rparr> = Inr st'
          \<and> results st' = [r] \<and> tr_test_case r = 1 \<and> tr_verdict r = WA
          \<and> tr_checker_message r = Some ''Checker execution failed''
          \<and> passed_count st' = 0)"
proof -
  let ?tc = "\<lparr>tc_input = ''1'', tc_expected_output = ''1'', tc_hidden = False\<rparr>"
  let ?rest = "[\<lparr>tc_input = ''2'', tc_expected_output = ''2'', tc_hidden = True\<rparr>,
                \<lparr>tc_input = ''3'', tc_expected_output = ''3'', tc_hidden = True\<rparr>]"
  have cc: "problem_checker_code checked_problem = Some ''print(1)''"
    and cl: "problem_checker_language checked_problem = Some ''python''"
    by (simp_all add: checked_problem_def)
  have user: "verdict (execute_code (job_language python_job) (job_code python_job) (tc_input ?tc)
                (problem_time_limit checked_problem) (problem_memory_limit checked_problem)
                (user_trace crashing_checker_world 0)) = SUCCESS"
    by (simp add: exec_eval python_job_def checked_problem_def crashing_checker_world_def
        world_of_def)
  have out: "output_str (execute_code (job_language python_job) (job_code python_job)
                (tc_input ?tc)
                (problem_time_limit checked_problem) (problem_memory_limit checked_problem)
                (user_trace crashing_checker_world 0)) = Some ''1''"
    by (simp add: exec_eval string_eval python_job_def checked_problem_def
        crashing_checker_world_def world_of_def)
  have crash: "verdict (execute_code ''python'' ''print(1)''
                (json_dumps [(''input'', tc_input ?tc), (''expected'', tc_expected_output ?tc),
                             (''actual'', ''1'')])
                5000 64 (checker_trace crashing_checker_world 0)) = RE"
    by (simp add: exec_eval crashing_checker_world_def world_of_def)
  then have fail: "verdict (execute_code ''python'' ''print(1)''
                (json_dumps [(''input'', tc_input ?tc), (''expected'', tc_expected_output ?tc),
                             (''actual'', ''1'')])
                5000 64 (checker_trace crashing_checker_world 0)) \<noteq> SUCCESS"
    by simp
  have tests: "echo_tests = ?tc # ?rest" by (simp add: echo_tests_def)
  from C7_checker_failure_is_WA[OF cc cl _ _ user out fail,
      of ?rest "\<lparr>results = [], passed_count = 0, max_time = 0, max_memory = 0\<rparr>"]
    cc cl user out crash tests
  show ?thesis by simp
qed

text \<open>
  C8. The claim: for every execution in which the sandbox reports peak memory at least 95%
  of the memory cap together with a non-zero exit code, the executor classifies the result
  as MLE rather than RE.

  \<open>execute_code\<close> looks at the memory only when the exit code is 0. A program killed with
  status 137 after 40 ms, with 65536 KB in use under a cap of 64 MB, is RE.
\<close>

theorem C8_killed_at_the_cap_is_RE:
  "verdict (execute_code ''python'' ''x = [0] * 10 ** 9'' ''1'' 1000 64
              (clean_trace (RunExited 137 40 [] ''Killed'' (Some 67108864)))) = RE
   \<and> memory_used (execute_code ''python'' ''x = [0] * 10 ** 9'' ''1'' 1000 64
              (clean_trace (RunExited 137 40 [] ''Killed'' (Some 67108864)))) = Some 65536
   \<and> (95 :: int) * (64 * 1024) \<le> 100 * 65536"
  by (simp add: exec_eval)

text \<open>
  C8, as the code has it. When the run container exits, a non-zero exit code gives TLE if
  the elapsed time has reached the time limit and RE otherwise, whatever the memory
  reading; MLE is given only for exit code 0 with more than \<open>memory_limit * 1024\<close> KB used.
\<close>

theorem C8_exit_code_decides:
  assumes "language_configs language = Some config"
    and "tmpdir_exn t = None" and "write_exn t = None" and "cleanup_exn t = None"
    and "compilation_step config (compile_phase t) = Inr None"
    and "run_phase t = RunExited sc el out err usage"
  shows "verdict (execute_code language code test_input tlim mlim t) =
           (if sc \<noteq> 0 then (if tlim \<le> el then TLE else RE)
            else if mlim * 1024 < get_or_0 usage div 1024 then MLE
            else SUCCESS)
         \<and> memory_used (execute_code language code test_input tlim mlim t)
             = Some (get_or_0 usage div 1024)"
  using assms
  by (simp add: execute_code_def try_block_def with_block_def Let_def)

theorem C8_exit_code_decides_witness:
  "language_configs ''python'' = Some \<lparr>image_cfg = ''python:3.11-alpine'', compile_cmd = None,
       run_cmd = [''python3'', ''/tmp/solution.py''], file_ext = ''.py'', timeout_cfg = 10\<rparr>
   \<and> run_phase (clean_trace (RunExited 137 40 [] ''Killed'' (Some 67108864)))
       = RunExited 137 40 [] ''Killed'' (Some 67108864)
   \<and> verdict (execute_code ''python'' ''x = [0] * 10 ** 9'' ''1'' 1000 64
              (clean_trace (RunExited 137 40 [] ''Killed'' (Some 67108864)))) = RE
   \<and> memory_used (execute_code ''python'' ''x = [0] * 10 ** 9'' ''1'' 1000 64
              (clean_trace (RunExited 137 40 [] ''Killed'' (Some 67108864)))) = Some 65536"
proof -
  let ?config = "\<lparr>image_cfg = ''python:3.11-alpine'', compile_cmd = None,
       run_cmd = [''python3'', ''/tmp/solution.py''], file_ext = ''.py'', timeout_cfg = 10\<rparr>"
  let ?t = "clean_trace (RunExited 137 40 [] ''Killed'' (Some 67108864))"
  have config: "language_configs ''python'' = Some ?config"
    by (simp add: language_configs_def)
  have quiet: "tmpdir_exn ?t = None" "write_exn ?t = None" "cleanup_exn ?t = None"
    by (simp_all add: clean_trace_def)
  have compiled: "compilation_step ?config (compile_phase ?t) = Inr None"
    by simp
  have run: "run_phase ?t = RunExited 137 40 [] ''Killed'' (Some 67108864)"
    by (simp add: clean_trace_def)
  from C8_exit_code_decides[OF config quiet compiled run,
      of "''x = [0] * 10 ** 9''" "''1''" 1000 64] config run
  show ?thesis by simp
qed

text \<open>
  C9. For every test case of a problem with no checker configured, correctness equals the
  comparison of the stripped user output with the stripped expected output, and the
  per-test verdict is AC on equality and WA otherwise. \<open>strip\<close> removes leading and
  trailing whitespace only (lemmas \<open>strip_decomposition\<close> and \<open>strip_ends\<close>), so whitespace
  inside the output counts; whitespace is what \<open>str.isspace\<close> accepts, NEL and the
  no-break space included (lemma \<open>strip_no_break_space\<close>).
\<close>

theorem C9_literal_comparison:
  assumes "\<not> (truthy (problem_checker_code p) \<and> truthy (problem_checker_language p))"
    and "verdict (execute_code (job_language j) (job_code j) (tc_input tc)
             (problem_time_limit p) (problem_memory_limit p) (user_trace w i)) = SUCCESS"
    and "output_str (execute_code (job_language j) (job_code j) (tc_input tc)
             (problem_time_limit p) (problem_memory_limit p) (user_trace w i)) = Some uo"
  shows "\<exists>st' r. judge_test_case j p w i tc st
                    = Inr (st', strip uo \<noteq> strip (tc_expected_output tc))
           \<and> results st' = results st @ [r]
           \<and> tr_test_case r = i + 1
           \<and> tr_verdict r = (if strip uo = strip (tc_expected_output tc) then AC else WA)"
proof -
  have "check_output (problem_checker_code p) (problem_checker_language p) uo
          (tc_expected_output tc) (tc_input tc) (checker_trace w i)
        = Inr (strip uo = strip (tc_expected_output tc), [])"
    using assms(1)
    by (cases "problem_checker_code p"; cases "problem_checker_language p") auto
  from judge_test_case_checked[OF assms(2,3) this, of st] show ?thesis by auto
qed

theorem C9_literal_comparison_witness:
  "\<not> (truthy (problem_checker_code echo_problem) \<and> truthy (problem_checker_language echo_problem))
   \<and> (\<exists>st' r. judge_test_case python_job echo_problem
                  (world_of (\<lambda>i. prints '' a  b\<newline>'') (\<lambda>i. prints []))
                  0 \<lparr>tc_input = ''1'', tc_expected_output = ''a b'', tc_hidden = False\<rparr>
                  \<lparr>results = [], passed_count = 0, max_time = 0, max_memory = 0\<rparr>
                = Inr (st', True)
          \<and> results st' = [r] \<and> tr_test_case r = 1 \<and> tr_verdict r = WA)
   \<and> strip '' a  b\<newline>'' = ''a  b'' \<and> strip ''a b'' = ''a b''"
proof -
  let ?w = "world_of (\<lambda>i. prints '' a  b\<newline>'') (\<lambda>i. prints [])"
  let ?tc = "\<lparr>tc_input = ''1'', tc_expected_output = ''a b'', tc_hidden = False\<rparr>"
  have plain: "\<not> (truthy (problem_checker_code echo_problem)
                   \<and> truthy (problem_checker_language echo_problem))"
    by (simp add: echo_problem_def)
  have ok: "verdict (execute_code (job_language python_job) (job_code python_job) (tc_input ?tc)
             (problem_time_limit echo_problem) (problem_memory_limit echo_problem)
             (user_trace ?w 0)) = SUCCESS"
    by (simp add: exec_eval python_job_def echo_problem_def world_of_def)
  have out: "output_str (execute_code (job_language python_job) (job_code python_job)
             (tc_input ?tc)
             (problem_time_limit echo_problem) (problem_memory_limit echo_problem)
             (user_trace ?w 0)) = Some ''a  b''"
    by (simp add: exec_eval string_eval python_job_def echo_problem_def world_of_def)
  have s1: "strip ''a  b'' = ''a  b''" and s2: "strip ''a b'' = ''a b''"
    and s3: "strip '' a  b\<newline>'' = ''a  b''"
    by (simp_all add: string_eval)
  from C9_literal_comparison[OF plain ok out,
      of "\<lparr>results = [], passed_count = 0, max_time = 0, max_memory = 0\<rparr>"]
    plain s1 s2 s3
  show ?thesis by simp
qed

text \<open>
  C10. The claim: \<open>execute_code\<close> is total, its verdict is one of CE, TLE, MLE, RE and
  SUCCESS, and any internal exception is caught and mapped to RE with execution time 0 and
  memory 0.

  One exception is not: a Docker API error whose message contains \<open>timeout\<close>, raised while
  the run container is waited for, is caught inside the \<open>try\<close> block and mapped to TLE with
  the time limit as execution time.
\<close>

theorem C10_api_timeout_is_TLE:
  "verdict (execute_code ''python'' ''while True: pass'' ''1'' 1000 64
              (clean_trace (RunRaised (APIError ''Read timed out. (read timeout=1.0)'') None)))
     = TLE
   \<and> execution_time (execute_code ''python'' ''while True: pass'' ''1'' 1000 64
              (clean_trace (RunRaised (APIError ''Read timed out. (read timeout=1.0)'') None)))
     = Some 1000"
  by (simp add: exec_eval string_eval)

text \<open>
  C10, as the code has it. \<open>execute_code\<close> always returns a result, with a verdict among
  CE, TLE, MLE, RE and SUCCESS. Every exception that leaves the \<open>try\<close> block is mapped to
  RE with the exception's text, execution time 0 and memory 0. A Docker API error whose
  message contains \<open>timeout\<close>, raised inside the inner \<open>try\<close> when nothing else fails, is
  mapped to TLE with the time limit as execution time and memory 0.
\<close>

theorem C10_execute_code_total:
  "verdict (execute_code language code test_input tlim mlim t) \<in> {CE, TLE, MLE, RE, SUCCESS}
   \<and> (\<forall>config e.
         language_configs language = Some config \<longrightarrow>
         try_block config tlim mlim t = Inl e \<longrightarrow>
         execute_code language code test_input tlim mlim t
           = \<lparr>verdict = RE, output_str = None, error = Some (str_of e),
              execution_time = Some 0, memory_used = Some 0\<rparr>)
   \<and> (\<forall>config m.
         language_configs language = Some config \<longrightarrow>
         tmpdir_exn t = None \<longrightarrow> write_exn t = None \<longrightarrow> cleanup_exn t = None \<longrightarrow>
         compilation_step config (compile_phase t) = Inr None \<longrightarrow>
         run_phase t = RunRaised (APIError m) None \<longrightarrow>
         contains ''timeout'' (lower m) \<longrightarrow>
         execute_code language code test_input tlim mlim t
           = \<lparr>verdict = TLE, output_str = None, error = None,
              execution_time = Some tlim, memory_used = Some 0\<rparr>)"
proof (intro conjI allI impI)
  show "verdict (execute_code language code test_input tlim mlim t)
          \<in> {CE, TLE, MLE, RE, SUCCESS}"
    by (rule execute_code_verdict)
next
  fix config e
  assume "language_configs language = Some config" and "try_block config tlim mlim t = Inl e"
  then show "execute_code language code test_input tlim mlim t
           = \<lparr>verdict = RE, output_str = None, error = Some (str_of e),
              execution_time = Some 0, memory_used = Some 0\<rparr>"
    by (simp add: execute_code_def)
next
  fix config m
  assume "language_configs language = Some config"
    and "tmpdir_exn t = None" and "write_exn t = None" and "cleanup_exn t = None"
    and "compilation_step config (compile_phase t) = Inr None"
    and "run_phase t = RunRaised (APIError m) None"
    and "contains ''timeout'' (lower m)"
  then show "execute_code language code test_input tlim mlim t
           = \<lparr>verdict = TLE, output_str = None, error = None,
              execution_time = Some tlim, memory_used = Some 0\<rparr>"
    by (simp add: execute_code_def try_block_def with_block_def)
qed

theorem C10_execute_code_total_witness:
  "try_block \<lparr>image_cfg = ''python:3.11-alpine'', compile_cmd = None,
       run_cmd = [''python3'', ''/tmp/solution.py''], file_ext = ''.py'', timeout_cfg = 10\<rparr>
     1000 64
     \<lparr>tmpdir_exn = Some (OtherException ''[Errno 28] No space left on device''),
      write_exn = None, compile_phase = CompileExited 0 [],
      run_phase = RunExited 0 12 ''1'' [] None, cleanup_exn = None\<rparr>
     = Inl (OtherException ''[Errno 28] No space left on device'')
   \<and> execute_code ''python'' ''print(1)'' ''1'' 1000 64
       \<lparr>tmpdir_exn = Some (OtherException ''[Errno 28] No space left on device''),
        write_exn = None, compile_phase = CompileExited 0 [],
        run_phase = RunExited 0 12 ''1'' [] None, cleanup_exn = None\<rparr>
     = \<lparr>verdict = RE, output_str = None,
        error = Some ''[Errno 28] No space left on device'',
        execution_time = Some 0, memory_used = Some 0\<rparr>
   \<and> contains ''timeout'' (lower ''Read timed out. (read timeout=1.0)'')
   \<and> execute_code ''python'' ''while True: pass'' ''1'' 1000 64
       (clean_trace (RunRaised (APIError ''Read timed out. (read timeout=1.0)'') None))
     = \<lparr>verdict = TLE, output_str = None, error = None,
        execution_time = Some 1000, memory_used = Some 0\<rparr>"
proof -
  let ?config = "\<lparr>image_cfg = ''python:3.11-alpine'', compile_cmd = None,
       run_cmd = [''python3'', ''/tmp/solution.py''], file_ext = ''.py'', timeout_cfg = 10\<rparr>"
  let ?full = "\<lparr>tmpdir_exn = Some (OtherException ''[Errno 28] No space left on device''),
      write_exn = None, compile_phase = CompileExited 0 [],
      run_phase = RunExited 0 12 ''1'' [] None, cleanup_exn = None\<rparr>"
  let ?slow = "clean_trace (RunRaised (APIError ''Read timed out. (read timeout=1.0)'') None)"
  have config: "language_configs ''python'' = Some ?config"
    by (simp add: language_configs_def)
  have raised: "try_block ?config 1000 64 ?full
                  = Inl (OtherException ''[Errno 28] No space left on device'')"
    by (simp add: try_block_def)
  have quiet: "tmpdir_exn ?slow = None" "write_exn ?slow = None" "cleanup_exn ?slow = None"
    "run_phase ?slow = RunRaised (APIError ''Read timed out. (read timeout=1.0)'') None"
    by (simp_all add: clean_trace_def)
  have compiled: "compilation_step ?config (compile_phase ?slow) = Inr None"
    by simp
  have timeout: "contains ''timeout'' (lower ''Read timed out. (read timeout=1.0)'')"
    by (simp add: string_eval)
  from C10_execute_code_total[of "''python''" "''print(1)''" "''1''" 1000 64 ?full]
    config raised
  have first: "execute_code ''python'' ''print(1)'' ''1'' 1000 64 ?full
     = \<lparr>verdict = RE, output_str = None,
        error = Some ''[Errno 28] No space left on device'',
        execution_time = Some 0, memory_used = Some 0\<rparr>"
    by simp
  from C10_execute_code_total[of "''python''" "''while True: pass''" "''1''" 1000 64 ?slow]
    config quiet compiled timeout
  have second: "execute_code ''python'' ''while True: pass'' ''1'' 1000 64 ?slow
     = \<lparr>verdict = TLE, output_str = None, error = None,
        execution_time = Some 1000, memory_used = Some 0\<rparr>"
    by blast
  from raised first timeout second show ?thesis by simp
qed

end
